theory Spec2Isabelle
  imports Main "HOL-Library.Sublist"
begin

section \<open>Texts and character classes\<close>

text \<open>
  The program reads each log with \<^verbatim>\<open>f.read()\<close> and hands the resulting \<^verbatim>\<open>str\<close> to
  the \<^verbatim>\<open>re\<close> module. A text is modelled as a list of 8-bit characters, each read as the
  code point of the same number (Latin-1). On these code points \<^verbatim>\<open>\d\<close> is the ten ASCII
  digits, and \<^verbatim>\<open>\w\<close> is the underscore together with every alphanumeric character.
\<close>

definition is_digit :: "char \<Rightarrow> bool" where
  "is_digit c = (let n = (of_char c :: nat) in 48 \<le> n \<and> n \<le> 57)"

definition is_word :: "char \<Rightarrow> bool" where
  "is_word c = (let n = (of_char c :: nat) in
     (48 \<le> n \<and> n \<le> 57) \<or> (65 \<le> n \<and> n \<le> 90) \<or> n = 95 \<or> (97 \<le> n \<and> n \<le> 122) \<or>
     n = 170 \<or> n = 178 \<or> n = 179 \<or> n = 181 \<or> n = 185 \<or> n = 186 \<or>
     (188 \<le> n \<and> n \<le> 190) \<or> (192 \<le> n \<and> n \<le> 214) \<or> (216 \<le> n \<and> n \<le> 246) \<or>
     248 \<le> n)"

section \<open>Regular expressions with backtracking\<close>

text \<open>
  The fragment of the \<^verbatim>\<open>re\<close> syntax that the three patterns of the program use:
  a literal character, the escapes \<^verbatim>\<open>\d\<close> and \<^verbatim>\<open>\w\<close>, a bracket expression, concatenation,
  the greedy quantifiers \<^verbatim>\<open>?\<close>, \<^verbatim>\<open>*\<close> and \<^verbatim>\<open>+\<close>, and a capturing group.
\<close>

datatype cls = ClsDigit | ClsWord | ClsChar char

fun cls_ok :: "cls \<Rightarrow> char \<Rightarrow> bool" where
  "cls_ok ClsDigit c = is_digit c"
| "cls_ok ClsWord c = is_word c"
| "cls_ok (ClsChar d) c = (c = d)"

datatype re =
    Lit char
  | Esc cls
  | Bracket "cls list"
  | Cat re re
  | Opt re
  | Star re
  | Grp re

definition Plus :: "re \<Rightarrow> re" where
  "Plus r = Cat r (Star r)"

fun lit :: "string \<Rightarrow> re \<Rightarrow> re" where
  "lit [] r = r"
| "lit (c # cs) r = Cat (Lit c) (lit cs r)"

definition one :: "(char \<Rightarrow> bool) \<Rightarrow> string \<Rightarrow> (string list \<times> string) list" where
  "one p s = (case s of [] \<Rightarrow> [] | c # t \<Rightarrow> if p c then [([], t)] else [])"

text \<open>
  \<open>ms r s\<close> lists every way in which \<open>r\<close> matches a prefix of \<open>s\<close>, in the order in which
  the backtracking matcher tries them: each entry holds the texts of the groups closed on
  the way and the rest of the input. A greedy quantifier tries one more repetition before
  it tries to stop.
\<close>

function ms :: "re \<Rightarrow> string \<Rightarrow> (string list \<times> string) list" where
  "ms (Lit d) s = one (\<lambda>c. c = d) s"
| "ms (Esc k) s = one (cls_ok k) s"
| "ms (Bracket ks) s = one (\<lambda>c. \<exists>k \<in> set ks. cls_ok k c) s"
| "ms (Cat a b) s =
     concat (map (\<lambda>x. map (\<lambda>y. (fst x @ fst y, snd y)) (ms b (snd x))) (ms a s))"
| "ms (Opt a) s = ms a s @ [([], s)]"
| "ms (Star a) s =
     concat (map (\<lambda>x. if length (snd x) < length s
                        then map (\<lambda>y. (fst x @ fst y, snd y)) (ms (Star a) (snd x))
                        else [])
                 (ms a s)) @ [([], s)]"
| "ms (Grp a) s =
     map (\<lambda>x. (take (length s - length (snd x)) s # fst x, snd x)) (ms a s)"
  by pat_completeness auto
termination
  by (relation "measures [\<lambda>(r, s). size r, \<lambda>(r, s). length s]") auto

text \<open>\<^verbatim>\<open>re.search\<close>: the first way to match at the leftmost position that has one.\<close>

fun re_search :: "re \<Rightarrow> string \<Rightarrow> string list option" where
  "re_search r [] = (case ms r [] of [] \<Rightarrow> None | x # _ \<Rightarrow> Some (fst x))"
| "re_search r (c # t) =
     (case ms r (c # t) of [] \<Rightarrow> re_search r t | x # _ \<Rightarrow> Some (fst x))"

text \<open>
  \<^verbatim>\<open>re.findall\<close>: the matches found from left to right, each search starting where the
  match before it ended. After an empty match the next one must either be non-empty or
  start further right.
\<close>

function findall_from :: "re \<Rightarrow> bool \<Rightarrow> string \<Rightarrow> string list list" where
  "findall_from r must_advance s =
     (case filter (\<lambda>x. \<not> must_advance \<or> length (snd x) < length s) (ms r s) of
        [] \<Rightarrow> (case s of [] \<Rightarrow> [] | _ # t \<Rightarrow> findall_from r False t)
      | x # _ \<Rightarrow>
          if length (snd x) < length s then fst x # findall_from r False (snd x)
          else if must_advance then []
          else fst x # findall_from r True s)"
  by pat_completeness auto
termination
  by (relation "measures [\<lambda>(r, b, s). length s, \<lambda>(r, b, s). if b then 0 else 1]") auto

definition findall :: "re \<Rightarrow> string \<Rightarrow> string list list" where
  "findall r s = findall_from r False s"

subsection \<open>The three patterns of the program\<close>

definition time_re :: re where
  "time_re = lit ''EXECUTION TIME : '' (Grp (Plus (Esc ClsDigit)))"

definition name_re :: re where
  "name_re =
     Cat (Plus (Esc ClsWord))
       (Cat (Opt (Lit CHR ''-''))
         (Cat (Star (Esc ClsWord))
           (Cat (Opt (Lit CHR ''-'')) (Star (Esc ClsWord)))))"

definition number_re :: re where
  "number_re = Plus (Bracket [ClsDigit, ClsChar CHR ''.''])"

definition energy_re :: re where
  "energy_re = Cat (Grp name_re) (lit '' : Energy Consumed = '' (Grp number_re))"

definition network_re :: re where
  "network_re = lit ''Total network usage = '' (Grp number_re)"

section \<open>Numbers\<close>

text \<open>
  A Python \<^verbatim>\<open>float\<close> is an IEEE 754 double. Every float of this program comes from a
  token without a sign, so \<open>Finite m e\<close> stands for the double \<open>m * 2 ^ e\<close>, kept with an odd
  \<open>m\<close> (or as \<open>Finite 0 0\<close>) so that two doubles are equal exactly when their terms are,
  and \<open>Infinity\<close> for \<^verbatim>\<open>inf\<close>.
\<close>

datatype pyfloat = Finite nat int | Infinity

datatype pyval = PyInt int | PyFloat pyfloat

datatype error = ValueError | IndexError | FileNotFoundError

function bits :: "nat \<Rightarrow> nat" where
  "bits n = (if n = 0 then 0 else Suc (bits (n div 2)))"
  by pat_completeness auto
termination
  by (relation "measure id") auto

function normal :: "nat \<Rightarrow> int \<Rightarrow> pyfloat" where
  "normal m e =
     (if m = 0 then Finite 0 0
      else if even m then normal (m div 2) (e + 1)
      else Finite m e)"
  by pat_completeness auto
termination
  by (relation "measure fst") auto

text \<open>
  \<open>round_ratio n d\<close> is the double nearest to the fraction \<open>n / d\<close>, ties going to the even
  significand: a significand of 53 bits, the exponent of the last bit between \<open>-1074\<close> and
  \<open>971\<close>, and \<^verbatim>\<open>inf\<close> beyond the largest double. \<open>floor_log2 n d\<close> is the exponent of the
  leading bit of the fraction, \<open>half_even N D\<close> the integer nearest to \<open>N / D\<close>.
\<close>

definition log2_adjust :: "nat \<Rightarrow> nat \<Rightarrow> int \<Rightarrow> int" where
  "log2_adjust n d k0 =
     (if (if 0 \<le> k0 then d * 2 ^ nat k0 \<le> n else d \<le> n * 2 ^ nat (- k0))
      then k0 else k0 - 1)"

definition floor_log2 :: "nat \<Rightarrow> nat \<Rightarrow> int" where
  "floor_log2 n d = log2_adjust n d (int (bits n) - int (bits d))"

definition round_up :: "nat \<Rightarrow> nat \<Rightarrow> nat \<Rightarrow> nat" where
  "round_up m r D =
     (if 2 * r < D then m else if D < 2 * r then m + 1 else if even m then m else m + 1)"

definition half_even :: "nat \<Rightarrow> nat \<Rightarrow> nat" where
  "half_even N D = round_up (N div D) (N mod D) D"

definition pack :: "nat \<Rightarrow> int \<Rightarrow> pyfloat" where
  "pack m e = (if 971 < e \<or> (e = 971 \<and> 2 ^ 53 \<le> m) then Infinity else normal m e)"

definition round_exp :: "nat \<Rightarrow> nat \<Rightarrow> int \<Rightarrow> pyfloat" where
  "round_exp n d e =
     pack (half_even (if e < 0 then n * 2 ^ nat (- e) else n)
                     (if e < 0 then d else d * 2 ^ nat e)) e"

definition round_ratio :: "nat \<Rightarrow> nat \<Rightarrow> pyfloat" where
  "round_ratio n d =
     (if n = 0 then Finite 0 0 else round_exp n d (max (floor_log2 n d - 52) (- 1074)))"

definition fadd_aligned :: "nat \<Rightarrow> int \<Rightarrow> nat \<Rightarrow> int \<Rightarrow> int \<Rightarrow> pyfloat" where
  "fadd_aligned m1 e1 m2 e2 e =
     (if 0 \<le> e
      then round_ratio ((m1 * 2 ^ nat (e1 - e) + m2 * 2 ^ nat (e2 - e)) * 2 ^ nat e) 1
      else round_ratio (m1 * 2 ^ nat (e1 - e) + m2 * 2 ^ nat (e2 - e)) (2 ^ nat (- e)))"

fun fadd :: "pyfloat \<Rightarrow> pyfloat \<Rightarrow> pyfloat" where
  "fadd (Finite m1 e1) (Finite m2 e2) = fadd_aligned m1 e1 m2 e2 (min e1 e2)"
| "fadd _ _ = Infinity"

subsection \<open>Reading numbers from tokens\<close>

definition digit_val :: "char \<Rightarrow> nat" where
  "digit_val c = of_char c - 48"

definition dec_nat :: "string \<Rightarrow> nat" where
  "dec_nat ds = foldl (\<lambda>a c. 10 * a + digit_val c) 0 ds"

text \<open>\<^verbatim>\<open>int(s)\<close> on a token of \<^verbatim>\<open>\d+\<close>; any other string is refused here.\<close>

definition py_int :: "string \<Rightarrow> error + int" where
  "py_int s = (if s \<noteq> [] \<and> list_all is_digit s then Inr (int (dec_nat s)) else Inl ValueError)"

text \<open>
  \<^verbatim>\<open>float(s)\<close> on a token of \<^verbatim>\<open>[\d\.]+\<close>: a decimal literal has at least one digit and at
  most one point, and its value is rounded to the nearest double. A token with two points
  or with no digit raises \<^verbatim>\<open>ValueError\<close>.
\<close>

definition py_float :: "string \<Rightarrow> error + pyfloat" where
  "py_float s =
     (if list_all (\<lambda>c. is_digit c \<or> c = CHR ''.'') s
         \<and> length (filter (\<lambda>c. c = CHR ''.'') s) \<le> 1
         \<and> filter is_digit s \<noteq> []
      then Inr (round_ratio (dec_nat (filter is_digit s))
                  (10 ^ length (filter is_digit (dropWhile (\<lambda>c. c \<noteq> CHR ''.'') s))))
      else Inl ValueError)"

text \<open>
  \<^verbatim>\<open>sum(float(energy) for _, energy in energy_matches)\<close>: the sum starts from the integer
  \<open>0\<close> and adds the floats from left to right; the first token that is not a literal
  raises. Adding a float to the integer \<open>0\<close> converts the integer first.
\<close>

fun py_add :: "pyval \<Rightarrow> pyfloat \<Rightarrow> pyval" where
  "py_add (PyInt i) x = PyFloat (fadd (round_ratio (nat i) 1) x)"
| "py_add (PyFloat a) x = PyFloat (fadd a x)"

fun sum_energy :: "pyval \<Rightarrow> string list list \<Rightarrow> error + pyval" where
  "sum_energy acc [] = Inr acc"
| "sum_energy acc (g # gs) =
     (case g of
        [_, energy] \<Rightarrow>
          (case py_float energy of
             Inl err \<Rightarrow> Inl err
           | Inr x \<Rightarrow> sum_energy (py_add acc x) gs)
      | _ \<Rightarrow> Inl ValueError)"

text \<open>\<^verbatim>\<open>m.group(1)\<close>\<close>

definition group1 :: "string list \<Rightarrow> error + string" where
  "group1 g = (case g of [] \<Rightarrow> Inl IndexError | x # _ \<Rightarrow> Inr x)"

section \<open>The metric store and the extraction\<close>

text \<open>
  A \<^verbatim>\<open>dict\<close> keeps its keys in the order of their first insertion; assigning to a key that
  is present replaces the value where it stands.
\<close>

type_synonym 'v dict = "(string \<times> 'v) list"

fun dict_set :: "'v dict \<Rightarrow> string \<Rightarrow> 'v \<Rightarrow> 'v dict" where
  "dict_set [] k v = [(k, v)]"
| "dict_set ((k', v') # kvs) k v =
     (if k' = k then (k, v) # kvs else (k', v') # dict_set kvs k v)"

definition dict_get :: "'v dict \<Rightarrow> string \<Rightarrow> 'v option" where
  "dict_get kvs k = map_of kvs k"

definition keys :: "'v dict \<Rightarrow> string list" where
  "keys kvs = map fst kvs"

record metrics =
  execution_time :: "pyval dict"
  energy_consumption :: "pyval dict"
  network_usage :: "pyval dict"

definition metrics_init :: metrics where
  "metrics_init = \<lparr>execution_time = [], energy_consumption = [], network_usage = []\<rparr>"

type_synonym files = "string \<rightharpoonup> string"

definition store_time :: "string \<Rightarrow> string \<Rightarrow> metrics \<Rightarrow> error + metrics" where
  "store_time content simulation_type st =
     (case re_search time_re content of
        None \<Rightarrow> Inr st
      | Some g \<Rightarrow>
          (case group1 g of
             Inl err \<Rightarrow> Inl err
           | Inr t \<Rightarrow>
               (case py_int t of
                  Inl err \<Rightarrow> Inl err
                | Inr i \<Rightarrow>
                    Inr (st\<lparr>execution_time :=
                              dict_set (execution_time st) simulation_type (PyInt i)\<rparr>))))"

definition store_energy :: "string \<Rightarrow> string \<Rightarrow> metrics \<Rightarrow> error + metrics" where
  "store_energy content simulation_type st =
     (case sum_energy (PyInt 0) (findall energy_re content) of
        Inl err \<Rightarrow> Inl err
      | Inr total_energy \<Rightarrow>
          Inr (st\<lparr>energy_consumption :=
                    dict_set (energy_consumption st) simulation_type total_energy\<rparr>))"

definition store_network :: "string \<Rightarrow> string \<Rightarrow> metrics \<Rightarrow> error + metrics" where
  "store_network content simulation_type st =
     (case re_search network_re content of
        None \<Rightarrow> Inr st
      | Some g \<Rightarrow>
          (case group1 g of
             Inl err \<Rightarrow> Inl err
           | Inr t \<Rightarrow>
               (case py_float t of
                  Inl err \<Rightarrow> Inl err
                | Inr x \<Rightarrow>
                    Inr (st\<lparr>network_usage :=
                              dict_set (network_usage st) simulation_type (PyFloat x)\<rparr>))))"

definition bind :: "error + 'a \<Rightarrow> ('a \<Rightarrow> error + 'b) \<Rightarrow> error + 'b" where
  "bind x f = (case x of Inl err \<Rightarrow> Inl err | Inr a \<Rightarrow> f a)"

definition extract_metrics :: "files \<Rightarrow> string \<Rightarrow> string \<Rightarrow> metrics \<Rightarrow> error + metrics" where
  "extract_metrics fs filename simulation_type st =
     (case fs filename of
        None \<Rightarrow> Inl FileNotFoundError
      | Some content \<Rightarrow>
          bind (store_time content simulation_type st) (\<lambda>st1.
          bind (store_energy content simulation_type st1) (\<lambda>st2.
          store_network content simulation_type st2)))"

subsection \<open>The script\<close>

definition results_dir :: string where
  "results_dir = ''./results/data/20250730_225303''"

definition simple_file :: string where
  "simple_file = results_dir @ ''/simple_drl_results.txt''"

definition learnable_file :: string where
  "learnable_file = results_dir @ ''/learnable_drl_results.txt''"

definition full_file :: string where
  "full_file = results_dir @ ''/full_drl_results.txt''"

text \<open>One guarded call: \<^verbatim>\<open>if os.path.exists(f): extract_metrics(f, label)\<close>.\<close>

definition process :: "files \<Rightarrow> string \<Rightarrow> string \<Rightarrow> metrics \<Rightarrow> error + metrics" where
  "process fs filename simulation_type st =
     (if fs filename \<noteq> None then extract_metrics fs filename simulation_type st else Inr st)"

definition extract_all :: "files \<Rightarrow> error + metrics" where
  "extract_all fs =
     bind (process fs simple_file ''Simple'' metrics_init) (\<lambda>st1.
     bind (process fs learnable_file ''Learnable'' st1) (\<lambda>st2.
     process fs full_file ''Full'' st2))"

subsection \<open>Properties of the store\<close>

definition labels :: "string list" where
  "labels = [''Simple'', ''Learnable'', ''Full'']"

definition jobs :: "(string \<times> string) list" where
  "jobs = [(simple_file, ''Simple''), (learnable_file, ''Learnable''), (full_file, ''Full'')]"

definition stores :: "metrics \<Rightarrow> pyval dict list" where
  "stores st = [execution_time st, energy_consumption st, network_usage st]"

text \<open>
  \<open>keys_within ls st\<close>: in each of the three mappings the keys, read in their order of
  insertion, are picked from \<open>ls\<close> in the order of \<open>ls\<close>.
\<close>

definition keys_within :: "string list \<Rightarrow> metrics \<Rightarrow> bool" where
  "keys_within ls st = list_all (\<lambda>d. subseq (keys d) ls) (stores st)"

text \<open>The extraction over a list of files, with no test for their existence.\<close>

fun extract_each :: "files \<Rightarrow> (string \<times> string) list \<Rightarrow> metrics \<Rightarrow> error + metrics" where
  "extract_each fs [] st = Inr st"
| "extract_each fs ((f, l) # js) st = bind (extract_metrics fs f l st) (extract_each fs js)"

text \<open>\<open>grows L st st'\<close>: each mapping of \<open>st'\<close> has no keys but those of \<open>st\<close> and those in \<open>L\<close>.\<close>

definition grows :: "string set \<Rightarrow> metrics \<Rightarrow> metrics \<Rightarrow> bool" where
  "grows L st st' =
     list_all2 (\<lambda>d d'. set (keys d') \<subseteq> L \<union> set (keys d)) (stores st) (stores st')"

section \<open>The output files\<close>

subsection \<open>Numbers as text\<close>

definition digit_char :: "nat \<Rightarrow> char" where
  "digit_char n = char_of (48 + n)"

function show_nat :: "nat \<Rightarrow> string" where
  "show_nat n = (if n < 10 then [digit_char n] else show_nat (n div 10) @ [digit_char (n mod 10)])"
  by pat_completeness auto
termination
  by (relation "measure id") auto

definition show_int :: "int \<Rightarrow> string" where
  "show_int i = (if i < 0 then CHR ''-'' # show_nat (nat (- i)) else show_nat (nat i))"

text \<open>
  \<^verbatim>\<open>repr\<close> of a float writes the shortest run of digits that reads back as the same
  double, the nearest to the double when several runs of that length do. \<open>digits_at x k\<close>
  looks at the two decimals of \<open>k\<close> digits next to \<open>x\<close>; seventeen digits always suffice,
  and \<open>force\<close> takes the nearer of the two there.
\<close>

definition float_frac :: "pyfloat \<Rightarrow> nat \<times> nat" where
  "float_frac x =
     (case x of
        Finite m e \<Rightarrow> if 0 \<le> e then (m * 2 ^ nat e, 1) else (m, 2 ^ nat (- e))
      | Infinity \<Rightarrow> (1, 0))"

definition decpt_adjust :: "nat \<Rightarrow> nat \<Rightarrow> int \<Rightarrow> int" where
  "decpt_adjust n d p0 =
     (if (if 0 \<le> p0 then n < d * 10 ^ nat p0 else n * 10 ^ nat (- p0) < d)
      then p0 else p0 + 1)"

definition decpt_of :: "nat \<Rightarrow> nat \<Rightarrow> int" where
  "decpt_of n d = decpt_adjust n d (int (length (show_nat n)) - int (length (show_nat d)))"

definition reads_back :: "pyfloat \<Rightarrow> nat \<Rightarrow> int \<Rightarrow> bool" where
  "reads_back x c q =
     ((if 0 \<le> q then round_ratio (c * 10 ^ nat q) 1 else round_ratio c (10 ^ nat (- q))) = x)"

definition rstrip0 :: "string \<Rightarrow> string" where
  "rstrip0 ds = rev (dropWhile (\<lambda>c. c = CHR ''0'') (rev ds))"

definition pick_digits :: "pyfloat \<Rightarrow> bool \<Rightarrow> int \<Rightarrow> nat \<Rightarrow> nat \<Rightarrow> nat \<Rightarrow> nat option" where
  "pick_digits x force q lo r D =
     (if r = 0 then Some lo
      else if force \<or> (reads_back x lo q \<and> reads_back x (lo + 1) q)
        then Some (round_up lo r D)
      else if reads_back x lo q then Some lo
      else if reads_back x (lo + 1) q then Some (lo + 1)
      else None)"

definition digits_scaled :: "pyfloat \<Rightarrow> bool \<Rightarrow> int \<Rightarrow> nat \<Rightarrow> nat \<Rightarrow> (string \<times> int) option" where
  "digits_scaled x force q N D =
     map_option (\<lambda>c. (rstrip0 (show_nat c), q + int (length (show_nat c))))
       (pick_digits x force q (N div D) (N mod D) D)"

definition digits_exp :: "pyfloat \<Rightarrow> bool \<Rightarrow> nat \<Rightarrow> nat \<Rightarrow> int \<Rightarrow> (string \<times> int) option" where
  "digits_exp x force n d q =
     digits_scaled x force q (if q < 0 then n * 10 ^ nat (- q) else n)
       (if q < 0 then d else d * 10 ^ nat q)"

definition digits_at :: "pyfloat \<Rightarrow> bool \<Rightarrow> nat \<Rightarrow> (string \<times> int) option" where
  "digits_at x force k =
     digits_exp x force (fst (float_frac x)) (snd (float_frac x))
       (decpt_of (fst (float_frac x)) (snd (float_frac x)) - int k)"

fun first_some :: "'a option list \<Rightarrow> 'a option" where
  "first_some [] = None"
| "first_some (None # xs) = first_some xs"
| "first_some (Some a # xs) = Some a"

definition shortest_digits :: "pyfloat \<Rightarrow> string \<times> int" where
  "shortest_digits x =
     (case first_some (map (digits_at x False) [1..<17] @ [digits_at x True 17]) of
        Some r \<Rightarrow> r
      | None \<Rightarrow> ([], 0))"

definition format_digits :: "string \<Rightarrow> int \<Rightarrow> string" where
  "format_digits ds decpt =
     (if decpt \<le> - 4 \<or> 16 < decpt then
        take 1 ds @ (if 1 < length ds then CHR ''.'' # drop 1 ds else [])
          @ ''e'' @ (if decpt - 1 < 0 then ''-'' else ''+'')
          @ (if \<bar>decpt - 1\<bar> < 10 then ''0'' else []) @ show_nat (nat \<bar>decpt - 1\<bar>)
      else if decpt \<le> 0 then ''0.'' @ replicate (nat (- decpt)) CHR ''0'' @ ds
      else if decpt < int (length ds) then take (nat decpt) ds @ ''.'' @ drop (nat decpt) ds
      else ds @ replicate (nat (decpt - int (length ds))) CHR ''0'' @ ''.0'')"

definition float_repr :: "pyfloat \<Rightarrow> string" where
  "float_repr x =
     (case x of
        Infinity \<Rightarrow> ''inf''
      | Finite m e \<Rightarrow>
          if m = 0 then ''0.0''
          else format_digits (fst (shortest_digits x)) (snd (shortest_digits x)))"

text \<open>\<^verbatim>\<open>str(value)\<close>, which the CSV writer applies to a field that is not a string.\<close>

definition py_str :: "pyval \<Rightarrow> string" where
  "py_str v = (case v of PyInt i \<Rightarrow> show_int i | PyFloat x \<Rightarrow> float_repr x)"

text \<open>The number as \<^verbatim>\<open>json.dump\<close> writes it.\<close>

definition json_number :: "pyval \<Rightarrow> string" where
  "json_number v =
     (case v of
        PyInt i \<Rightarrow> show_int i
      | PyFloat Infinity \<Rightarrow> ''Infinity''
      | PyFloat x \<Rightarrow> float_repr x)"

subsection \<open>The CSV files and the JSON file\<close>

fun join :: "string \<Rightarrow> string list \<Rightarrow> string" where
  "join sep [] = []"
| "join sep [x] = x"
| "join sep (x # y # ys) = x @ sep @ join sep (y # ys)"

definition newline :: string where
  "newline = [CHR 0x0A]"

definition crlf :: string where
  "crlf = [CHR 0x0D, CHR 0x0A]"

text \<open>The writer quotes a field that holds the delimiter, the quote or a line break.\<close>

definition csv_field :: "string \<Rightarrow> string" where
  "csv_field s =
     (if \<exists>c \<in> set s. c = CHR '','' \<or> c = CHR 0x22 \<or> c = CHR 0x0D \<or> c = CHR 0x0A
      then [CHR 0x22] @ concat (map (\<lambda>c. if c = CHR 0x22 then [c, c] else [c]) s) @ [CHR 0x22]
      else s)"

definition csv_line :: "string list \<Rightarrow> string" where
  "csv_line row = join '','' (map csv_field row) @ crlf"

definition csv_rows :: "string \<Rightarrow> pyval dict \<Rightarrow> string list list" where
  "csv_rows metric_name metric_data =
     [''Simulation Type'', metric_name] # map (\<lambda>kv. [fst kv, py_str (snd kv)]) metric_data"

definition csv_text :: "string \<Rightarrow> pyval dict \<Rightarrow> string" where
  "csv_text metric_name metric_data = concat (map csv_line (csv_rows metric_name metric_data))"

text \<open>\<^verbatim>\<open>metrics.items()\<close>: the three categories in the order of the literal.\<close>

definition metrics_items :: "metrics \<Rightarrow> (string \<times> pyval dict) list" where
  "metrics_items st =
     [(''execution_time'', execution_time st),
      (''energy_consumption'', energy_consumption st),
      (''network_usage'', network_usage st)]"

text \<open>
  A key between quotes, with the quote and the backslash escaped; every other character of
  the keys of this program is printable ASCII and is written as it is.
\<close>

definition json_string :: "string \<Rightarrow> string" where
  "json_string s =
     [CHR 0x22]
     @ concat (map (\<lambda>c. if c = CHR 0x22 \<or> c = CHR 0x5C then [CHR 0x5C, c] else [c]) s)
     @ [CHR 0x22]"

definition json_dict :: "pyval dict \<Rightarrow> string" where
  "json_dict d =
     (if d = [] then ''{}''
      else ''{'' @ newline
           @ join ('','' @ newline)
               (map (\<lambda>kv. ''    '' @ json_string (fst kv) @ '': '' @ json_number (snd kv)) d)
           @ newline @ ''  }'')"

definition json_text :: "metrics \<Rightarrow> string" where
  "json_text st =
     ''{'' @ newline
     @ join ('','' @ newline)
         (map (\<lambda>nd. ''  '' @ json_string (fst nd) @ '': '' @ json_dict (snd nd))
            (metrics_items st))
     @ newline @ ''}''"

definition csv_file :: "string \<Rightarrow> string" where
  "csv_file metric_name = results_dir @ ''/'' @ metric_name @ ''.csv''"

definition json_file :: string where
  "json_file = results_dir @ ''/all_metrics.json''"

definition write_outputs :: "metrics \<Rightarrow> files \<Rightarrow> files" where
  "write_outputs st fs =
     (foldl (\<lambda>fs' nd. fs'(csv_file (fst nd) \<mapsto> csv_text (fst nd) (snd nd))) fs (metrics_items st))
       (json_file \<mapsto> json_text st)"

text \<open>
  The whole script: the three guarded extractions, then the writing of the four files.
  An exception in an extraction ends the run before any file is written.
\<close>

definition run :: "files \<Rightarrow> error + files" where
  "run fs = (case extract_all fs of Inl err \<Rightarrow> Inl err | Inr st \<Rightarrow> Inr (write_outputs st fs))"

definition output_files :: "string list" where
  "output_files =
     [csv_file ''execution_time'', csv_file ''energy_consumption'', csv_file ''network_usage'',
      json_file]"

subsection \<open>The extraction in the words of the specification\<close>

text \<open>
  The first occurrence of a fixed text followed by a number: the leftmost place where the
  fixed text stands right before a character of the number, and from there the longest run
  of such characters.
\<close>

fun find_after :: "string \<Rightarrow> (char \<Rightarrow> bool) \<Rightarrow> string \<Rightarrow> string option" where
  "find_after pre p [] = None"
| "find_after pre p (c # t) =
     (if prefix pre (c # t) \<and> takeWhile p (drop (length pre) (c # t)) \<noteq> []
      then Some (takeWhile p (drop (length pre) (c # t)))
      else find_after pre p t)"

definition number_char :: "char \<Rightarrow> bool" where
  "number_char c = (is_digit c \<or> c = CHR ''.'')"

text \<open>The rests of the input that a greedy \<open>*\<close> over one character class leaves, longest run first.\<close>

fun star_tails :: "(char \<Rightarrow> bool) \<Rightarrow> string \<Rightarrow> string list" where
  "star_tails p [] = [[]]"
| "star_tails p (c # t) = (if p c then star_tails p t @ [c # t] else [c # t])"

section \<open>Verification\<close>

subsection \<open>Helper facts about dictionaries and the store\<close>

lemma keys_dict_set:
  "keys (dict_set d k v) = (if k \<in> set (keys d) then keys d else keys d @ [k])"
  by (induction d) (force simp: keys_def)+

lemma subseq_snoc_notin:
  "subseq xs (ys @ [l]) \<Longrightarrow> l \<notin> set xs \<Longrightarrow> subseq xs ys"
proof (induction ys arbitrary: xs)
  case Nil
  then show ?case by (cases xs) (auto simp: subseq_Cons' )
next
  case (Cons y ys)
  then show ?case by (cases xs) (auto simp: subseq_Cons2_iff split: if_splits)
qed

lemma dict_set_within:
  assumes "subseq (keys d) (ls @ [l])"
  shows "subseq (keys (dict_set d l v)) (ls @ [l])"
proof (cases "l \<in> set (keys d)")
  case True
  with assms show ?thesis by (simp add: keys_dict_set)
next
  case False
  with assms have "subseq (keys d) ls" by (rule subseq_snoc_notin)
  then have "subseq (keys d @ [l]) (ls @ [l])" by (simp add: list_emb_append_mono)
  with False show ?thesis by (simp add: keys_dict_set)
qed

lemma store_time_within:
  "keys_within (ls @ [l]) st \<Longrightarrow> store_time c l st = Inr st' \<Longrightarrow> keys_within (ls @ [l]) st'"
  by (auto simp: store_time_def keys_within_def stores_def dict_set_within
           split: option.splits sum.splits)

lemma store_energy_within:
  "keys_within (ls @ [l]) st \<Longrightarrow> store_energy c l st = Inr st' \<Longrightarrow> keys_within (ls @ [l]) st'"
  by (auto simp: store_energy_def keys_within_def stores_def dict_set_within
           split: option.splits sum.splits)

lemma store_network_within:
  "keys_within (ls @ [l]) st \<Longrightarrow> store_network c l st = Inr st' \<Longrightarrow> keys_within (ls @ [l]) st'"
  by (auto simp: store_network_def keys_within_def stores_def dict_set_within
           split: option.splits sum.splits)

lemma keys_within_snoc: "keys_within ls st \<Longrightarrow> keys_within (ls @ [l]) st"
  by (simp add: keys_within_def stores_def subseq_rev_drop_many [where ?zs = "[l]", simplified] list_emb_append2 flip: rev_rev_ident)

lemma bind_Inr: "bind x f = Inr y \<longleftrightarrow> (\<exists>a. x = Inr a \<and> f a = Inr y)"
  by (cases x) (simp_all add: bind_def)

lemma extract_metrics_within:
  assumes "keys_within ls st" "extract_metrics fs f l st = Inr st'"
  shows "keys_within (ls @ [l]) st'"
proof -
  from assms(2) obtain c st1 st2 where
    "store_time c l st = Inr st1" "store_energy c l st1 = Inr st2" "store_network c l st2 = Inr st'"
    by (auto simp: extract_metrics_def bind_Inr split: option.splits)
  with keys_within_snoc [OF assms(1), of l] show ?thesis
    by (blast intro: store_time_within store_energy_within store_network_within)
qed

lemma process_within:
  "keys_within ls st \<Longrightarrow> process fs f l st = Inr st' \<Longrightarrow> keys_within (ls @ [l]) st'"
  by (auto simp: process_def keys_within_snoc extract_metrics_within split: if_splits)

lemma extract_all_within:
  assumes "extract_all fs = Inr st"
  shows "keys_within labels st"
proof -
  from assms obtain st1 st2 where
    s: "process fs simple_file ''Simple'' metrics_init = Inr st1"
       "process fs learnable_file ''Learnable'' st1 = Inr st2"
       "process fs full_file ''Full'' st2 = Inr st"
    by (auto simp: extract_all_def bind_Inr)
  have "keys_within [] metrics_init"
    by (simp add: keys_within_def stores_def metrics_init_def keys_def)
  from process_within [OF this s(1)] have "keys_within [''Simple''] st1" by simp
  from process_within [OF this s(2)] have "keys_within [''Simple'', ''Learnable''] st2" by simp
  from process_within [OF this s(3)] show ?thesis by (simp add: labels_def)
qed

subsection \<open>The keys of the store\<close>

text \<open>
  Claim C10. At every point of the run each of the three mappings has its keys among
  Simple, Learnable and Full, each at most once, in an order of insertion that agrees with
  Simple before Learnable before Full. The empty store has the property; each of the three
  assignments of an extraction for the label \<open>l\<close> keeps the keys within \<open>ls @ [l]\<close>; each
  guarded call for \<open>l\<close> leads from keys within \<open>ls\<close> to keys within \<open>ls @ [l]\<close>; and the
  store at the end of the three calls has its keys within the three labels, without
  repetition.
\<close>

theorem store_keys_invariant:
  "keys_within [] metrics_init \<and>
   (keys_within (ls @ [l]) st \<and>
      (store_time c l st = Inr st' \<or> store_energy c l st = Inr st' \<or>
       store_network c l st = Inr st')
    \<longrightarrow> keys_within (ls @ [l]) st') \<and>
   (keys_within ls st \<and> process fs f l st = Inr st' \<longrightarrow> keys_within (ls @ [l]) st') \<and>
   (extract_all fs = Inr fin \<longrightarrow>
      keys_within labels fin \<and>
      list_all (\<lambda>d. distinct (keys d) \<and> set (keys d) \<subseteq> set labels) (stores fin))"
proof -
  have init: "keys_within [] metrics_init"
    by (simp add: keys_within_def stores_def metrics_init_def keys_def)
  have fin: "keys_within labels fin \<and>
      list_all (\<lambda>d. distinct (keys d) \<and> set (keys d) \<subseteq> set labels) (stores fin)"
    if "extract_all fs = Inr fin"
  proof -
    have w: "keys_within labels fin" using that by (rule extract_all_within)
    have "distinct labels" by (simp add: labels_def)
    then have "distinct (keys d) \<and> set (keys d) \<subseteq> set labels" if "subseq (keys d) labels" for d :: "pyval dict"
      using that subseqs_distinctD [of "keys d" labels] list_emb_set [of "(=)" "keys d" labels]
      by (auto simp: in_set_subseqs)
    with w show ?thesis
      by (simp add: keys_within_def stores_def)
  qed
  show ?thesis
    using init fin
    by (blast intro: store_time_within store_energy_within store_network_within process_within)
qed

theorem store_keys_invariant_witness:
  "keys_within ([] @ [''Simple'']) metrics_init \<and>
   store_time ''EXECUTION TIME : 12'' ''Simple'' metrics_init =
     Inr \<lparr>execution_time = [(''Simple'', PyInt 12)], energy_consumption = [],
          network_usage = []\<rparr> \<and>
   keys_within ([] @ [''Simple''])
     \<lparr>execution_time = [(''Simple'', PyInt 12)], energy_consumption = [],
      network_usage = []\<rparr> \<and>
   keys_within [] metrics_init \<and>
   process Map.empty simple_file ''Simple'' metrics_init = Inr metrics_init \<and>
   extract_all Map.empty = Inr metrics_init \<and>
   keys_within labels metrics_init"
proof -
  have a: "store_time ''EXECUTION TIME : 12'' ''Simple'' metrics_init =
     Inr \<lparr>execution_time = [(''Simple'', PyInt 12)], energy_consumption = [],
          network_usage = []\<rparr>"
    by code_simp
  have b: "keys_within ([] @ [''Simple'']) metrics_init"
    by (simp add: keys_within_def stores_def metrics_init_def keys_def)
  have c: "process Map.empty simple_file ''Simple'' metrics_init = Inr metrics_init"
    by (simp add: process_def)
  have d: "extract_all Map.empty = Inr metrics_init"
    by (simp add: extract_all_def process_def bind_def)
  from a b c d
    store_keys_invariant [where ls = "[]" and l = "''Simple''" and st = metrics_init
      and c = "''EXECUTION TIME : 12''" and fs = Map.empty and f = simple_file
      and st' = "\<lparr>execution_time = [(''Simple'', PyInt 12)], energy_consumption = [],
          network_usage = []\<rparr>" and fin = metrics_init]
    store_keys_invariant [where ls = "[]" and l = "''Simple''" and st = metrics_init
      and c = "''EXECUTION TIME : 12''" and fs = Map.empty and f = simple_file
      and st' = metrics_init and fin = metrics_init]
  show ?thesis by simp
qed

lemma bind_left: "bind (Inr a) f = f a"
  by (simp add: bind_def)

lemma bind_right: "bind x Inr = x" "bind x (\<lambda>s. Inr s) = x"
  by (cases x; simp add: bind_def)+

lemma bind_assoc: "bind (bind x f) g = bind x (\<lambda>a. bind (f a) g)"
  by (cases x; simp add: bind_def)

lemma process_missing: "fs f = None \<Longrightarrow> process fs f l st = Inr st"
  by (simp add: process_def)

lemma extract_all_existing:
  "extract_all fs = extract_each fs (filter (\<lambda>j. fs (fst j) \<noteq> None) jobs) metrics_init"
proof -
  have e: "extract_each fs [] = Inr"
    "\<And>f l js. extract_each fs ((f, l) # js) =
       (\<lambda>st. bind (extract_metrics fs f l st) (extract_each fs js))"
    by (rule ext, simp)+
  show ?thesis
    by (cases "fs simple_file = None"; cases "fs learnable_file = None";
        cases "fs full_file = None")
      (simp_all add: extract_all_def jobs_def process_def e bind_left bind_right bind_assoc)
qed

lemma dict_set_keys_set: "set (keys (dict_set d k v)) = insert k (set (keys d))"
  by (auto simp: keys_dict_set)

lemma store_time_keys:
  "store_time c l st = Inr st' \<Longrightarrow> list_all2 (\<lambda>d d'. set (keys d') \<subseteq> insert l (set (keys d))) (stores st) (stores st')"
  by (auto simp: store_time_def stores_def dict_set_keys_set split: option.splits sum.splits)

lemma store_energy_keys:
  "store_energy c l st = Inr st' \<Longrightarrow> list_all2 (\<lambda>d d'. set (keys d') \<subseteq> insert l (set (keys d))) (stores st) (stores st')"
  by (auto simp: store_energy_def stores_def dict_set_keys_set split: option.splits sum.splits)

lemma store_network_keys:
  "store_network c l st = Inr st' \<Longrightarrow> list_all2 (\<lambda>d d'. set (keys d') \<subseteq> insert l (set (keys d))) (stores st) (stores st')"
  by (auto simp: store_network_def stores_def dict_set_keys_set split: option.splits sum.splits)


lemma grows_refl: "grows L st st"
  by (simp add: grows_def stores_def)

lemma grows_trans: "grows L a b \<Longrightarrow> grows M b c \<Longrightarrow> grows (L \<union> M) a c"
  by (auto simp: grows_def stores_def)

lemma extract_metrics_keys:
  assumes "extract_metrics fs f l st = Inr st'"
  shows "grows {l} st st'"
proof -
  from assms obtain c st1 st2 where
    s: "store_time c l st = Inr st1" "store_energy c l st1 = Inr st2"
       "store_network c l st2 = Inr st'"
    by (auto simp: extract_metrics_def bind_Inr split: option.splits)
  from store_time_keys [OF s(1)] store_energy_keys [OF s(2)] store_network_keys [OF s(3)]
  show ?thesis
    by (auto simp: grows_def stores_def)
qed

lemma extract_each_keys:
  "extract_each fs js st = Inr st' \<Longrightarrow> grows (snd ` set js) st st'"
proof (induction js arbitrary: st)
  case Nil
  then show ?case by (simp add: grows_refl)
next
  case (Cons j js)
  obtain f l where j: "j = (f, l)" by (cases j)
  from Cons.prems obtain st1 where
    a: "extract_metrics fs f l st = Inr st1" and b: "extract_each fs js st1 = Inr st'"
    by (auto simp: j bind_Inr)
  from grows_trans [OF extract_metrics_keys [OF a] Cons.IH [OF b]] show ?case
    by (simp add: j)
qed

subsection \<open>Missing input files\<close>

text \<open>
  Claim C3. A guarded call for a file that does not exist returns the store as it was and
  raises nothing; the three guarded calls together are the extraction over exactly the
  files that exist, in the fixed order, so the files that exist are processed as if the
  others had never been named; and at the end no mapping has an entry for the label of a
  missing file, the energy mapping included.
\<close>

theorem missing_files_skipped:
  "(fs f = None \<longrightarrow> process fs f l st = Inr st) \<and>
   extract_all fs = extract_each fs (filter (\<lambda>j. fs (fst j) \<noteq> None) jobs) metrics_init \<and>
   (extract_all fs = Inr fin \<longrightarrow>
      (\<forall>j \<in> set jobs. fs (fst j) = None \<longrightarrow>
         list_all (\<lambda>d. snd j \<notin> set (keys d)) (stores fin)))"
proof (intro conjI impI ballI)
  show "process fs f l st = Inr st" if "fs f = None"
    using that by (rule process_missing)
  show "extract_all fs = extract_each fs (filter (\<lambda>j. fs (fst j) \<noteq> None) jobs) metrics_init"
    by (rule extract_all_existing)
  fix j
  assume fin: "extract_all fs = Inr fin" and j: "j \<in> set jobs" and none: "fs (fst j) = None"
  from fin have "grows (snd ` set (filter (\<lambda>j. fs (fst j) \<noteq> None) jobs)) metrics_init fin"
    using extract_each_keys [of fs "filter (\<lambda>j. fs (fst j) \<noteq> None) jobs" metrics_init fin]
    unfolding extract_all_existing by blast
  moreover have "snd j \<notin> snd ` set (filter (\<lambda>j. fs (fst j) \<noteq> None) jobs)"
    using j none by (auto simp: jobs_def)
  ultimately show "list_all (\<lambda>d. snd j \<notin> set (keys d)) (stores fin)"
    by (auto simp: grows_def stores_def metrics_init_def keys_def)
qed

lemma only_learnable_empty:
  "extract_all [learnable_file \<mapsto> ''''] =
   Inr \<lparr>execution_time = [], energy_consumption = [(''Learnable'', PyInt 0)],
        network_usage = []\<rparr>"
  by code_simp

lemma files_differ:
  "simple_file \<noteq> learnable_file" "simple_file \<noteq> full_file" "learnable_file \<noteq> full_file"
  by (simp_all add: simple_file_def learnable_file_def full_file_def)

theorem missing_files_skipped_witness:
  "[learnable_file \<mapsto> ''''] simple_file = None \<and>
   process [learnable_file \<mapsto> ''''] simple_file ''Simple'' metrics_init = Inr metrics_init \<and>
   extract_all [learnable_file \<mapsto> ''''] =
     Inr \<lparr>execution_time = [], energy_consumption = [(''Learnable'', PyInt 0)],
          network_usage = []\<rparr> \<and>
   (simple_file, ''Simple'') \<in> set jobs \<and>
   list_all (\<lambda>d. ''Simple'' \<notin> set (keys d))
     (stores \<lparr>execution_time = [], energy_consumption = [(''Learnable'', PyInt 0)],
              network_usage = []\<rparr>)"
proof -
  have a: "[learnable_file \<mapsto> ''''] simple_file = None"
    using files_differ by simp
  have b: "(simple_file, ''Simple'') \<in> set jobs"
    by (simp add: jobs_def)
  note t = missing_files_skipped [where fs = "[learnable_file \<mapsto> '''']" and f = simple_file
      and l = "''Simple''" and st = metrics_init
      and fin = "\<lparr>execution_time = [], energy_consumption = [(''Learnable'', PyInt 0)],
          network_usage = []\<rparr>"]
  from t [THEN conjunct1, rule_format, OF a]
  have p: "process [learnable_file \<mapsto> ''''] simple_file ''Simple'' metrics_init =
      Inr metrics_init" .
  from t [THEN conjunct2, THEN conjunct2, rule_format, OF only_learnable_empty b] a
  have q: "list_all (\<lambda>d. ''Simple'' \<notin> set (keys d))
     (stores \<lparr>execution_time = [], energy_consumption = [(''Learnable'', PyInt 0)],
              network_usage = []\<rparr>)"
    by simp
  from a b only_learnable_empty p q show ?thesis by (intro conjI)
qed

subsection \<open>Helper facts about the output files\<close>

lemma subseq_filter_mem:
  "subseq xs ys \<Longrightarrow> distinct ys \<Longrightarrow> filter (\<lambda>y. y \<in> set xs) ys = xs"
proof (induction rule: list_emb.induct)
  case (list_emb_Nil ys)
  then show ?case by simp
next
  case (list_emb_Cons xs ys y)
  then have "y \<notin> set xs" by (auto dest: list_emb_set)
  with list_emb_Cons show ?case by simp
next
  case (list_emb_Cons2 x y xs ys)
  then have "x \<notin> set ys" by simp
  then have "filter (\<lambda>z. z \<in> set (x # xs)) ys = filter (\<lambda>z. z \<in> set xs) ys"
    by (intro filter_cong) auto
  with list_emb_Cons2 show ?case by simp
qed

lemma dict_as_keys:
  "distinct (keys d) \<Longrightarrow> d = map (\<lambda>l. (l, the (dict_get d l))) (keys d)"
proof (induction d)
  case Nil
  then show ?case by (simp add: keys_def)
next
  case (Cons kv d)
  obtain k v where kv: "kv = (k, v)" by (cases kv)
  from Cons.prems have nk: "k \<notin> set (keys d)" and dd: "distinct (keys d)"
    by (simp_all add: keys_def kv)
  have "map (\<lambda>l. (l, the (dict_get (kv # d) l))) (keys d) = map (\<lambda>l. (l, the (dict_get d l))) (keys d)"
    using nk by (intro map_cong) (auto simp: dict_get_def kv)
  with Cons.IH [OF dd] show ?case
    by (simp add: keys_def kv dict_get_def)
qed

lemma paths_differ:
  "csv_file a \<noteq> simple_file" "csv_file a \<noteq> learnable_file" "csv_file a \<noteq> full_file"
  "json_file \<noteq> simple_file" "json_file \<noteq> learnable_file" "json_file \<noteq> full_file"
  "csv_file a \<noteq> json_file"
  "(csv_file a = csv_file b) = (a = b)"
  by (auto simp: csv_file_def json_file_def simple_file_def learnable_file_def full_file_def
      dest: arg_cong [where f = rev] arg_cong [where f = length])

lemma write_outputs_eq:
  "write_outputs st fs =
     fs(csv_file ''execution_time'' \<mapsto> csv_text ''execution_time'' (execution_time st),
        csv_file ''energy_consumption'' \<mapsto> csv_text ''energy_consumption'' (energy_consumption st),
        csv_file ''network_usage'' \<mapsto> csv_text ''network_usage'' (network_usage st),
        json_file \<mapsto> json_text st)"
  by (simp add: write_outputs_def metrics_items_def)

lemma write_outputs_inputs:
  "write_outputs st fs simple_file = fs simple_file"
  "write_outputs st fs learnable_file = fs learnable_file"
  "write_outputs st fs full_file = fs full_file"
  by (simp_all add: write_outputs_eq paths_differ paths_differ(1-7) [symmetric])

lemma write_outputs_csv:
  "nd \<in> set (metrics_items st) \<Longrightarrow>
   write_outputs st fs (csv_file (fst nd)) = Some (csv_text (fst nd) (snd nd))"
  by (auto simp: write_outputs_eq metrics_items_def paths_differ paths_differ(1-7) [symmetric])

lemma write_outputs_idem: "write_outputs st (write_outputs st fs) = write_outputs st fs"
  by (rule ext) (simp add: write_outputs_eq)

lemma write_outputs_indep:
  "p \<in> set output_files \<Longrightarrow> write_outputs st fs p = write_outputs st gs p"
  by (auto simp: write_outputs_eq output_files_def paths_differ paths_differ(1-7) [symmetric])

lemma process_cong: "gs f = fs f \<Longrightarrow> process gs f l st = process fs f l st"
  by (simp add: process_def extract_metrics_def)

lemma extract_all_cong:
  assumes "gs simple_file = fs simple_file" "gs learnable_file = fs learnable_file"
    "gs full_file = fs full_file"
  shows "extract_all gs = extract_all fs"
  unfolding extract_all_def
  by (simp only: process_cong [of gs simple_file fs, OF assms(1)]
      process_cong [of gs learnable_file fs, OF assms(2)]
      ext [of "process gs full_file l" "process fs full_file l" for l,
           OF process_cong [of gs full_file fs, OF assms(3)]])

lemma run_Inr: "run fs = Inr fs' \<longleftrightarrow> (\<exists>st. extract_all fs = Inr st \<and> fs' = write_outputs st fs)"
  by (auto simp: run_def split: sum.splits)

subsection \<open>Running twice\<close>

text \<open>
  Claim C8. The script is a function of its three input files: a run that completes writes
  its four output files and leaves the inputs as they were, so a second run on the file
  system that the first one left completes with that same file system, byte for byte; and
  two runs over file systems that agree on the three input files write the same four
  output files.
\<close>

theorem rerun_same_outputs:
  "(run fs = Inr fs' \<longrightarrow> run fs' = Inr fs') \<and>
   (fs simple_file = gs simple_file \<and> fs learnable_file = gs learnable_file \<and>
    fs full_file = gs full_file \<and> run fs = Inr fs' \<and> run gs = Inr gs'
    \<longrightarrow> list_all (\<lambda>p. fs' p = gs' p) output_files)"
proof (intro conjI impI)
  assume "run fs = Inr fs'"
  then obtain st where st: "extract_all fs = Inr st" and fs': "fs' = write_outputs st fs"
    by (auto simp: run_Inr)
  have "extract_all fs' = extract_all fs"
    unfolding fs' by (rule extract_all_cong) (rule write_outputs_inputs)+
  with st show "run fs' = Inr fs'"
    by (simp add: run_def fs' write_outputs_idem)
next
  assume a: "fs simple_file = gs simple_file \<and> fs learnable_file = gs learnable_file \<and>
    fs full_file = gs full_file \<and> run fs = Inr fs' \<and> run gs = Inr gs'"
  then obtain st where st: "extract_all fs = Inr st" and fs': "fs' = write_outputs st fs"
    by (auto simp: run_Inr)
  from a have "extract_all gs = extract_all fs"
    by (intro extract_all_cong) simp_all
  with st have "extract_all gs = Inr st" by simp
  moreover from a have "run gs = Inr gs'" by simp
  ultimately have gs': "gs' = write_outputs st gs"
    by (simp add: run_def)
  show "list_all (\<lambda>p. fs' p = gs' p) output_files"
    unfolding fs' gs' list_all_iff
  proof
    fix p assume "p \<in> set output_files"
    then show "write_outputs st fs p = write_outputs st gs p" by (rule write_outputs_indep)
  qed
qed

lemma rows_by_label:
  assumes "subseq (keys d) labels"
  shows "csv_rows n d =
      [''Simulation Type'', n] #
      map (\<lambda>l. [l, py_str (the (dict_get d l))]) (filter (\<lambda>l. l \<in> set (keys d)) labels)"
proof -
  have dl: "distinct labels" by (simp add: labels_def)
  from assms have f: "filter (\<lambda>l. l \<in> set (keys d)) labels = keys d"
    by (rule subseq_filter_mem) (rule dl)
  from assms dl have "distinct (keys d)"
    using subseqs_distinctD [of "keys d" labels] by simp
  from dict_as_keys [OF this]
  have "map (\<lambda>kv. [fst kv, py_str (snd kv)]) d =
      map (\<lambda>kv. [fst kv, py_str (snd kv)]) (map (\<lambda>l. (l, the (dict_get d l))) (keys d))"
    by simp
  then show ?thesis
    by (simp add: csv_rows_def f comp_def)
qed

subsection \<open>The rows of the CSV files\<close>

text \<open>
  Claim C4. After a run that completes, the CSV file of each metric category holds the
  lines of the header row \<open>[Simulation Type, category]\<close> followed by one row per label
  that has an entry in the category's mapping, the labels in the fixed order Simple,
  Learnable, Full and each row holding the label and the text of its value.
\<close>

theorem csv_output_rows:
  "run fs = Inr fs' \<longrightarrow>
   (\<exists>st. extract_all fs = Inr st \<and>
      list_all
        (\<lambda>nd. fs' (csv_file (fst nd)) = Some (concat (map csv_line (csv_rows (fst nd) (snd nd)))) \<and>
              csv_rows (fst nd) (snd nd) =
                [''Simulation Type'', fst nd] #
                map (\<lambda>l. [l, py_str (the (dict_get (snd nd) l))])
                  (filter (\<lambda>l. l \<in> set (keys (snd nd))) labels))
        (metrics_items st))"
proof
  assume "run fs = Inr fs'"
  then obtain st where st: "extract_all fs = Inr st" and fs': "fs' = write_outputs st fs"
    by (auto simp: run_Inr)
  from extract_all_within [OF st] have "list_all (\<lambda>d. subseq (keys d) labels) (stores st)"
    by (simp add: keys_within_def)
  then have w: "list_all (\<lambda>nd. subseq (keys (snd nd)) labels) (metrics_items st)"
    by (simp add: stores_def metrics_items_def)
  have "list_all
        (\<lambda>nd. fs' (csv_file (fst nd)) = Some (concat (map csv_line (csv_rows (fst nd) (snd nd)))) \<and>
              csv_rows (fst nd) (snd nd) =
                [''Simulation Type'', fst nd] #
                map (\<lambda>l. [l, py_str (the (dict_get (snd nd) l))])
                  (filter (\<lambda>l. l \<in> set (keys (snd nd))) labels))
        (metrics_items st)"
    unfolding list_all_iff
  proof (intro ballI conjI)
    fix nd assume nd: "nd \<in> set (metrics_items st)"
    show "fs' (csv_file (fst nd)) = Some (concat (map csv_line (csv_rows (fst nd) (snd nd))))"
      using write_outputs_csv [OF nd, of fs] by (simp add: fs' csv_text_def)
    from w nd have "subseq (keys (snd nd)) labels" by (simp add: list_all_iff)
    then show "csv_rows (fst nd) (snd nd) =
                [''Simulation Type'', fst nd] #
                map (\<lambda>l. [l, py_str (the (dict_get (snd nd) l))])
                  (filter (\<lambda>l. l \<in> set (keys (snd nd))) labels)"
      by (rule rows_by_label)
  qed
  with st show "\<exists>st. extract_all fs = Inr st \<and> list_all
        (\<lambda>nd. fs' (csv_file (fst nd)) = Some (concat (map csv_line (csv_rows (fst nd) (snd nd)))) \<and>
              csv_rows (fst nd) (snd nd) =
                [''Simulation Type'', fst nd] #
                map (\<lambda>l. [l, py_str (the (dict_get (snd nd) l))])
                  (filter (\<lambda>l. l \<in> set (keys (snd nd))) labels))
        (metrics_items st)"
    by (intro exI [of _ st] conjI)
qed

lemma run_only_learnable_empty:
  "run [learnable_file \<mapsto> ''''] =
   Inr (write_outputs
     \<lparr>execution_time = [], energy_consumption = [(''Learnable'', PyInt 0)],
      network_usage = []\<rparr> [learnable_file \<mapsto> ''''])"
  by (simp only: run_def only_learnable_empty sum.case)

lemma show_nat_digit: "n < 10 \<Longrightarrow> show_nat n = [digit_char n]"
  by (subst show_nat.simps) simp

lemma digit_char_0: "digit_char 0 = CHR ''0''"
  by code_simp

theorem csv_output_rows_witness:
  "run [learnable_file \<mapsto> ''''] =
     Inr (write_outputs
       \<lparr>execution_time = [], energy_consumption = [(''Learnable'', PyInt 0)],
        network_usage = []\<rparr> [learnable_file \<mapsto> '''']) \<and>
   write_outputs
       \<lparr>execution_time = [], energy_consumption = [(''Learnable'', PyInt 0)],
        network_usage = []\<rparr> [learnable_file \<mapsto> ''''] (csv_file ''energy_consumption'') =
     Some (concat (map csv_line
       [[''Simulation Type'', ''energy_consumption''], [''Learnable'', ''0'']])) \<and>
   write_outputs
       \<lparr>execution_time = [], energy_consumption = [(''Learnable'', PyInt 0)],
        network_usage = []\<rparr> [learnable_file \<mapsto> ''''] (csv_file ''execution_time'') =
     Some (concat (map csv_line [[''Simulation Type'', ''execution_time'']]))"
proof -
  from csv_output_rows [of "[learnable_file \<mapsto> '''']", rule_format,
      OF run_only_learnable_empty]
  have "list_all
        (\<lambda>nd. write_outputs
                 \<lparr>execution_time = [], energy_consumption = [(''Learnable'', PyInt 0)],
                  network_usage = []\<rparr> [learnable_file \<mapsto> ''''] (csv_file (fst nd)) =
               Some (concat (map csv_line (csv_rows (fst nd) (snd nd)))))
        (metrics_items
           \<lparr>execution_time = [], energy_consumption = [(''Learnable'', PyInt 0)],
            network_usage = []\<rparr>)"
    by (auto simp: only_learnable_empty list_all_iff)
  then show ?thesis
    by (simp add: run_only_learnable_empty metrics_items_def csv_rows_def py_str_def
        show_int_def show_nat_digit digit_char_0)
qed

theorem rerun_same_outputs_witness:
  "run [learnable_file \<mapsto> ''''] =
     Inr (write_outputs
       \<lparr>execution_time = [], energy_consumption = [(''Learnable'', PyInt 0)],
        network_usage = []\<rparr> [learnable_file \<mapsto> '''']) \<and>
   run (write_outputs
       \<lparr>execution_time = [], energy_consumption = [(''Learnable'', PyInt 0)],
        network_usage = []\<rparr> [learnable_file \<mapsto> '''']) =
     Inr (write_outputs
       \<lparr>execution_time = [], energy_consumption = [(''Learnable'', PyInt 0)],
        network_usage = []\<rparr> [learnable_file \<mapsto> ''''])"
  using rerun_same_outputs [of "[learnable_file \<mapsto> '''']" _ "[learnable_file \<mapsto> '''']",
      THEN conjunct1, rule_format, OF run_only_learnable_empty]
    run_only_learnable_empty
  by simp

subsection \<open>What the matcher returns for the patterns of the program\<close>

lemma ms_lit: "ms (lit pre r) s = (if prefix pre s then ms r (drop (length pre) s) else [])"
proof (induction pre arbitrary: s)
  case Nil
  then show ?case by simp
next
  case (Cons c cs)
  show ?case
  proof (cases s)
    case Nil
    then show ?thesis by (simp add: one_def)
  next
    case (Cons a t)
    have "map (\<lambda>y. (fst y, snd y)) xs = xs" for xs :: "(string list \<times> string) list"
      by simp
    then show ?thesis
      using Cons.IH [of t] by (simp add: one_def Cons)
  qed
qed

lemma star_tails_hd: "\<exists>rest. star_tails p s = dropWhile p s # rest"
  by (induction s) auto

lemma star_tails_set: "set (star_tails p s) = {r. \<exists>pre. s = pre @ r \<and> list_all p pre}"
proof (induction s)
  case Nil
  then show ?case by auto
next
  case (Cons c t)
  show ?case
  proof (cases "p c")
    case True
    have "{r. \<exists>pre. c # t = pre @ r \<and> list_all p pre} =
        insert (c # t) {r. \<exists>pre. t = pre @ r \<and> list_all p pre}"
    proof (intro set_eqI iffI)
      fix r assume "r \<in> {r. \<exists>pre. c # t = pre @ r \<and> list_all p pre}"
      then obtain pre where pre: "c # t = pre @ r" "list_all p pre" by blast
      show "r \<in> insert (c # t) {r. \<exists>pre. t = pre @ r \<and> list_all p pre}"
      proof (cases pre)
        case Nil
        with pre show ?thesis by simp
      next
        case (Cons a pre')
        with pre have "t = pre' @ r" "list_all p pre'" by simp_all
        then show ?thesis by blast
      qed
    next
      fix r assume "r \<in> insert (c # t) {r. \<exists>pre. t = pre @ r \<and> list_all p pre}"
      then consider "r = c # t" | pre where "t = pre @ r" "list_all p pre" by blast
      then show "r \<in> {r. \<exists>pre. c # t = pre @ r \<and> list_all p pre}"
      proof cases
        case 1
        then have "c # t = [] @ r \<and> list_all p []" by simp
        then show ?thesis by blast
      next
        case 2
        with True have "c # t = (c # pre) @ r \<and> list_all p (c # pre)" by simp
        then show ?thesis by blast
      qed
    qed
    with True Cons show ?thesis by simp
  next
    case False
    then have "{r. \<exists>pre. c # t = pre @ r \<and> list_all p pre} = {c # t}"
      by (auto simp: Cons_eq_append_conv)
    with False show ?thesis by simp
  qed
qed

lemma ms_star_cls:
  assumes "\<And>s. ms A s = one p s"
  shows "ms (Star A) s = map (Pair []) (star_tails p s)"
proof (induction s)
  case Nil
  then show ?case by (simp add: assms one_def)
next
  case (Cons c t)
  have "map (\<lambda>y. (fst y, snd y)) xs = xs" for xs :: "(string list \<times> string) list"
    by simp
  with Cons show ?case
    by (simp add: assms one_def comp_def)
qed

lemma ms_plus_cls:
  assumes "\<And>s. ms A s = one p s"
  shows "ms (Plus A) s =
    (case s of [] \<Rightarrow> [] | c # t \<Rightarrow> if p c then map (Pair []) (star_tails p t) else [])"
proof -
  have "ms (Plus A) s =
      concat (map (\<lambda>x. map (\<lambda>y. (fst x @ fst y, snd y)) (ms (Star A) (snd x))) (one p s))"
    by (simp add: Plus_def assms del: ms.simps(6))
  then show ?thesis
    by (cases s) (simp_all add: one_def ms_star_cls [OF assms] comp_def del: ms.simps(6))
qed

lemma ms_grp_plus_cls:
  assumes "\<And>s. ms A s = one p s"
  shows "ms (Grp (Plus A)) s =
    (if takeWhile p s = [] then []
     else ([takeWhile p s], dropWhile p s) # tl (ms (Grp (Plus A)) s))"
proof (cases s)
  case Nil
  then show ?thesis by (simp add: ms_plus_cls [OF assms] del: ms.simps(6))
next
  case (Cons c t)
  show ?thesis
  proof (cases "p c")
    case False
    with Cons show ?thesis by (simp add: ms_plus_cls [OF assms] del: ms.simps(6))
  next
    case True
    obtain rest where r: "star_tails p t = dropWhile p t # rest"
      using star_tails_hd by blast
    have "length (dropWhile p t) \<le> length t" by (rule length_dropWhile_le)
    then have "take (Suc (length t) - length (dropWhile p t)) (c # t) = c # takeWhile p t"
      by (metis Suc_diff_le append_eq_conv_conj diff_add_inverse2 length_append take_Suc_Cons takeWhile_dropWhile_id)
    with True Cons r show ?thesis
      by (simp add: ms_plus_cls [OF assms] del: ms.simps(6))
  qed
qed

lemma ms_esc: "ms (Esc k) s = one (cls_ok k) s"
  by simp

lemma ms_number: "ms (Bracket [ClsDigit, ClsChar CHR ''.'']) s = one number_char s"
  by (simp add: number_char_def one_def split: list.splits)

end
